theory Spec2Isabelle
  imports Main
begin

section \<open>Messages\<close>

text \<open>
  The genkit message type as the program uses it: a role (a string type in
  the library, \<open>user\<close> and \<open>model\<close> being the two the program creates) and an
  ordered list of parts, each a text part or a media part (content type and
  data URI).
\<close>

type_synonym Role = string

definition RoleUser :: Role where
  "RoleUser = ''user''"

definition RoleModel :: Role where
  "RoleModel = ''model''"

datatype Part = TextPart string | MediaPart string string

record Message =
  Role :: Role
  Content :: "Part list"

definition NewUserMessage :: "Part list \<Rightarrow> Message" where
  "NewUserMessage parts = \<lparr>Role = RoleUser, Content = parts\<rparr>"

definition NewUserTextMessage :: "string \<Rightarrow> Message" where
  "NewUserTextMessage text = \<lparr>Role = RoleUser, Content = [TextPart text]\<rparr>"

definition NewModelTextMessage :: "string \<Rightarrow> Message" where
  "NewModelTextMessage text = \<lparr>Role = RoleModel, Content = [TextPart text]\<rparr>"

section \<open>History manager (package history)\<close>

text \<open>
  Every method of the manager runs with the manager's mutex held, so each is
  one atomic state transformer on the record below. Go's \<open>int\<close> is modelled
  as \<open>int\<close>; no arithmetic here can overflow.
\<close>

record config =
  maxMessages :: int

type_synonym Option = "config \<Rightarrow> config"

definition WithMaxMessages :: "int \<Rightarrow> Option" where
  "WithMaxMessages n = (\<lambda>cfg. cfg\<lparr>maxMessages := n\<rparr>)"

record HistoryManager =
  config :: config
  messages :: "Message list"

definition NewHistoryManager :: "Option list \<Rightarrow> HistoryManager" where
  "NewHistoryManager opts =
     (let cfg = foldl (\<lambda>c opt. opt c) \<lparr>maxMessages = 5\<rparr> opts;
          cfg' = (if maxMessages cfg < 0 then cfg\<lparr>maxMessages := 5\<rparr> else cfg)
      in \<lparr>config = cfg', messages = []\<rparr>)"

definition enforceLimits :: "HistoryManager \<Rightarrow> HistoryManager" where
  "enforceLimits h =
     (let msgs = messages h;
          msgs' = (if maxMessages (config h) > 0 \<and> int (length msgs) > maxMessages (config h)
                   then drop (nat (int (length msgs) - maxMessages (config h))) msgs
                   else msgs)
      in h\<lparr>messages := msgs'\<rparr>)"

definition Add :: "HistoryManager \<Rightarrow> string \<Rightarrow> Message \<Rightarrow> HistoryManager" where
  "Add h model msg = enforceLimits (h\<lparr>messages := messages h @ [msg]\<rparr>)"

definition AddUserMessage :: "HistoryManager \<Rightarrow> string \<Rightarrow> string \<Rightarrow> HistoryManager" where
  "AddUserMessage h model text = Add h model (NewUserTextMessage text)"

definition AddAssistantMessage :: "HistoryManager \<Rightarrow> string \<Rightarrow> string \<Rightarrow> HistoryManager" where
  "AddAssistantMessage h model text = Add h model (NewModelTextMessage text)"

definition GetAll :: "HistoryManager \<Rightarrow> Message list" where
  "GetAll h = messages h"

definition Set :: "HistoryManager \<Rightarrow> Message list \<Rightarrow> HistoryManager" where
  "Set h msgs = (if length msgs = 0 then h\<lparr>messages := []\<rparr> else h\<lparr>messages := msgs\<rparr>)"

definition Clear :: "HistoryManager \<Rightarrow> HistoryManager" where
  "Clear h = h\<lparr>messages := []\<rparr>"

definition Count :: "HistoryManager \<Rightarrow> int" where
  "Count h = int (length (messages h))"

text \<open>A sequence of \<open>Add\<close> calls, each with its (unused) model name.\<close>

definition AddAll :: "HistoryManager \<Rightarrow> (string \<times> Message) list \<Rightarrow> HistoryManager" where
  "AddAll h calls = foldl (\<lambda>h' (model, msg). Add h' model msg) h calls"

section \<open>Text\<close>

text \<open>
  The strings that the code hands to the Unicode-aware functions of the
  standard library (the input line, its tokens, paths, extensions) are
  modelled as \<open>runes\<close>: the sequence of their code points, which is what
  those functions read from a string of valid UTF-8, as the line editor
  returns. The functions that work on bytes (\<open>filepath.Ext\<close>,
  \<open>strings.HasPrefix\<close>, slicing after an ASCII prefix) look for ASCII bytes
  only, and in UTF-8 those occur only as the ASCII code points themselves. The
  strings that the code only stores, passes on, concatenates or tests for
  emptiness (roles, message texts, MIME types, error texts) stay byte
  strings. \<open>str\<close> gives the code points of an ASCII literal.
\<close>

type_synonym rune = nat

type_synonym runes = "rune list"

definition str :: "string \<Rightarrow> runes" where
  "str cs = map of_char cs"

section \<open>Errors\<close>

text \<open>
  Go's error values, one constructor for each place where the modelled code
  creates or receives one. Every early \<open>return ..., err\<close> of the source is
  an \<open>Inl\<close> (or \<open>Some\<close>) branch of the model.
\<close>

datatype error =
    HomeDirError
  | DownloadError
  | StatusError int
  | ReadBodyError
  | UnsupportedFormat runes
  | ReadFileError
  | ContextCanceled
  | BackendError string
  | DbError string
  | MarshalError

fun isOK :: "error + 'a \<Rightarrow> bool" where
  "isOK (Inr _) = True"
| "isOK (Inl _) = False"

section \<open>String functions of the standard library\<close>

text \<open>
  \<open>strings.Fields\<close>, \<open>strings.TrimSpace\<close>, \<open>strings.TrimRight\<close>,
  \<open>strings.ToLower\<close>, \<open>strings.Join\<close>, \<open>strings.HasPrefix\<close> and
  \<open>filepath.Ext\<close> (Unix path separator), on sequences of code points.

  \<open>isSpace\<close> is \<open>unicode.IsSpace\<close>: the tab to carriage return range,
  the space, U+0085 and U+00A0 in Latin-1, and beyond it the code points of
  Unicode's White_Space property.
\<close>

definition isSpace :: "rune \<Rightarrow> bool" where
  "isSpace r = ((0x09 \<le> r \<and> r \<le> 0x0D) \<or> r = 0x20 \<or> r = 0x85 \<or> r = 0xA0 \<or>
                r = 0x1680 \<or> (0x2000 \<le> r \<and> r \<le> 0x200A) \<or> r = 0x2028 \<or> r = 0x2029 \<or>
                r = 0x202F \<or> r = 0x205F \<or> r = 0x3000)"

text \<open>
  \<open>fieldsFrom cur s\<close> scans \<open>s\<close> from left to right with the field being
  read in \<open>cur\<close>, closing it at each white-space code point.
\<close>

fun fieldsFrom :: "runes \<Rightarrow> runes \<Rightarrow> runes list" where
  "fieldsFrom cur [] = (if cur = [] then [] else [cur])"
| "fieldsFrom cur (c # cs) =
     (if isSpace c then (if cur = [] then fieldsFrom [] cs else cur # fieldsFrom [] cs)
      else fieldsFrom (cur @ [c]) cs)"

definition Fields :: "runes \<Rightarrow> runes list" where
  "Fields s = fieldsFrom [] s"

definition TrimSpace :: "runes \<Rightarrow> runes" where
  "TrimSpace s = rev (dropWhile isSpace (rev (dropWhile isSpace s)))"

definition TrimRight :: "runes \<Rightarrow> runes \<Rightarrow> runes" where
  "TrimRight s cutset = rev (dropWhile (\<lambda>c. c \<in> set cutset) (rev s))"

text \<open>
  \<open>strings.ToLower\<close> maps \<open>unicode.ToLower\<close> over the code points. On
  ASCII that adds 32 to \<open>A\<close>..\<open>Z\<close> and changes nothing else; above ASCII
  it looks the code point up in Unicode's case tables, which are not part of
  the program and are the parameter \<open>lowerCase\<close> (in Unicode's tables
  U+0130 maps to \<open>i\<close>, for one).
\<close>

definition toLowerRune :: "(rune \<Rightarrow> rune) \<Rightarrow> rune \<Rightarrow> rune" where
  "toLowerRune lowerCase r =
     (if r \<le> 0x7F then (if 0x41 \<le> r \<and> r \<le> 0x5A then r + 0x20 else r) else lowerCase r)"

definition ToLower :: "(rune \<Rightarrow> rune) \<Rightarrow> runes \<Rightarrow> runes" where
  "ToLower lowerCase s = map (toLowerRune lowerCase) s"

fun Join :: "runes list \<Rightarrow> runes \<Rightarrow> runes" where
  "Join [] sep = []"
| "Join [x] sep = x"
| "Join (x # y # zs) sep = x @ sep @ Join (y # zs) sep"

definition HasPrefix :: "runes \<Rightarrow> runes \<Rightarrow> bool" where
  "HasPrefix s pre = (take (length pre) s = pre)"

text \<open>
  \<open>filepath.Ext\<close> walks from the end of the path towards its start, stops
  at a slash (U+002F) and returns the suffix that starts at the first dot
  (U+002E) it meets. \<open>extScan\<close> takes what is still to visit (last first)
  and the suffix already passed.
\<close>

fun extScan :: "runes \<Rightarrow> runes \<Rightarrow> runes" where
  "extScan [] suffix = []"
| "extScan (c # cs) suffix =
     (if c = 0x2F then []
      else if c = 0x2E then c # suffix
      else extScan cs (c # suffix))"

definition Ext :: "runes \<Rightarrow> runes" where
  "Ext path = extScan (rev path) []"

section \<open>The outside world\<close>

text \<open>
  What the code reads from outside the process is a parameter of the model:
  \<open>os.Stat\<close> (\<open>None\<close> is an error), \<open>os.UserHomeDir\<close>, \<open>os.ReadFile\<close>,
  \<open>http.Get\<close> with the three things the code reads from a response (status
  code, \<open>Content-Type\<close> header, and the body as \<open>io.ReadAll\<close> returns it).
  So are three things of the standard library: the pure functions
  \<open>filepath.Join\<close> and base64 encoding, whose results the modelled code
  only passes on, and Unicode's lower-case table for the code points above
  ASCII.
\<close>

type_synonym bytes = string

record FileInfo =
  IsDir :: bool

record Response =
  StatusCode :: int
  ContentType :: string
  Body :: "bytes option"

record World =
  Stat :: "runes \<Rightarrow> FileInfo option"
  UserHomeDir :: "runes option"
  ReadFile :: "runes \<Rightarrow> bytes option"
  httpGet :: "runes \<Rightarrow> Response option"
  filepathJoin :: "runes \<Rightarrow> runes \<Rightarrow> runes"
  EncodeToString :: "bytes \<Rightarrow> string"
  LowerCase :: "rune \<Rightarrow> rune"

section \<open>Input parser (package parser)\<close>

record ParsedInput =
  Mode :: string
  Text :: runes
  ImagePaths :: "runes list"
  Raw :: runes
  Command :: string
  Args :: "string list"

definition imageExtensions :: "runes list" where
  "imageExtensions =
     [str ''.png'', str ''.jpg'', str ''.jpeg'', str ''.webp'', str ''.gif'', str ''.bmp'']"

definition isImageFile :: "World \<Rightarrow> runes \<Rightarrow> bool" where
  "isImageFile w path0 =
     (let path = TrimRight path0 (str ''.,!?;:'') in
      case Stat w path of
        None \<Rightarrow> False
      | Some info \<Rightarrow>
          if IsDir info then False
          else ToLower (LowerCase w) (Ext path) \<in> set imageExtensions)"

text \<open>The token loop of \<open>ParseLine\<close>, with its two slices as accumulators.\<close>

fun splitTokens :: "World \<Rightarrow> runes list \<Rightarrow> runes list \<Rightarrow> runes list
    \<Rightarrow> runes list \<times> runes list" where
  "splitTokens w [] textTokens imagePaths = (textTokens, imagePaths)"
| "splitTokens w (tok # tokens) textTokens imagePaths =
     (if isImageFile w tok then splitTokens w tokens textTokens (imagePaths @ [tok])
      else splitTokens w tokens (textTokens @ [tok]) imagePaths)"

definition ParseLine :: "World \<Rightarrow> runes \<Rightarrow> ParsedInput" where
  "ParseLine w line =
     (let trimmed = TrimSpace line;
          out = \<lparr>Mode = [], Text = [], ParsedInput.ImagePaths = [], Raw = line,
                 Command = [], Args = []\<rparr>
      in if trimmed = [] then out
         else
           let tokens = Fields trimmed;
               (textTokens, imagePaths) = splitTokens w tokens [] [];
               out1 = out\<lparr>ParsedInput.ImagePaths := imagePaths\<rparr>;
               out2 = (if length imagePaths > 0 then out1\<lparr>Mode := ''vision''\<rparr>
                       else out1\<lparr>Mode := ''chat''\<rparr>);
               text0 = TrimSpace (Join textTokens (str '' ''));
               text = (if text0 = [] \<and> length imagePaths > 0
                       then str ''Describe this image in detail.'' else text0)
           in out2\<lparr>Text := text\<rparr>)"

text \<open>
  The classification as the specification words it: the extension after
  stripping trailing punctuation decides, the file system is not consulted.
\<close>

definition spec_isImageRef :: "World \<Rightarrow> runes \<Rightarrow> bool" where
  "spec_isImageRef w tok =
     (ToLower (LowerCase w) (Ext (TrimRight tok (str ''.,!?;:''))) \<in> set imageExtensions)"

section \<open>Images (package media)\<close>

definition SupportedImageFormats :: "runes \<Rightarrow> string option" where
  "SupportedImageFormats =
     map_of [(str ''.jpg'', ''image/jpeg''), (str ''.jpeg'', ''image/jpeg''),
             (str ''.png'', ''image/png''), (str ''.gif'', ''image/gif''),
             (str ''.webp'', ''image/webp''), (str ''.bmp'', ''image/bmp'')]"

record ImageReference =
  Path :: runes
  MimeType :: string
  Data :: bytes

fun extractLoop :: "World \<Rightarrow> runes list \<Rightarrow> runes list \<Rightarrow> runes list" where
  "extractLoop w [] paths = paths"
| "extractLoop w (word # words) paths =
     (case SupportedImageFormats (ToLower (LowerCase w) (Ext word)) of
        Some _ \<Rightarrow> extractLoop w words (paths @ [word])
      | None \<Rightarrow> extractLoop w words paths)"

definition ExtractImagePaths :: "World \<Rightarrow> runes \<Rightarrow> runes list" where
  "ExtractImagePaths w input = extractLoop w (Fields input) []"

definition loadImageFromFile :: "World \<Rightarrow> runes \<Rightarrow> error + ImageReference" where
  "loadImageFromFile w path =
     (let ext = ToLower (LowerCase w) (Ext path) in
      case SupportedImageFormats ext of
        None \<Rightarrow> Inl (UnsupportedFormat ext)
      | Some mimeType \<Rightarrow>
          (case ReadFile w path of
             None \<Rightarrow> Inl ReadFileError
           | Some data \<Rightarrow> Inr \<lparr>Path = path, MimeType = mimeType, Data = data\<rparr>))"

definition loadImageFromURL :: "World \<Rightarrow> runes \<Rightarrow> error + ImageReference" where
  "loadImageFromURL w url =
     (case httpGet w url of
        None \<Rightarrow> Inl DownloadError
      | Some resp \<Rightarrow>
          if StatusCode resp \<noteq> 200 then Inl (StatusError (StatusCode resp))
          else
            (case Body resp of
               None \<Rightarrow> Inl ReadBodyError
             | Some data \<Rightarrow>
                 let mimeType = ContentType resp;
                     mimeType' =
                       (if mimeType = [] then
                          (case SupportedImageFormats (ToLower (LowerCase w) (Ext url)) of
                             Some m \<Rightarrow> m
                           | None \<Rightarrow> ''image/jpeg'')
                        else mimeType)
                 in Inr \<lparr>Path = url, MimeType = mimeType', Data = data\<rparr>))"

definition isURL :: "runes \<Rightarrow> bool" where
  "isURL path = (HasPrefix path (str ''http://'') \<or> HasPrefix path (str ''https://''))"

definition LoadImage :: "World \<Rightarrow> runes \<Rightarrow> error + ImageReference" where
  "LoadImage w path0 =
     (case (if HasPrefix path0 (str ''~/'') then
              (case UserHomeDir w of
                 None \<Rightarrow> Inl HomeDirError
               | Some home \<Rightarrow> Inr (filepathJoin w home (drop 2 path0)))
            else Inr path0) of
        Inl e \<Rightarrow> Inl e
      | Inr path \<Rightarrow>
          if isURL path then loadImageFromURL w path else loadImageFromFile w path)"

definition ToDataURI :: "World \<Rightarrow> ImageReference \<Rightarrow> string" where
  "ToDataURI w img = ''data:'' @ MimeType img @ '';base64,'' @ EncodeToString w (Data img)"

definition ToMediaPart :: "World \<Rightarrow> ImageReference \<Rightarrow> Part" where
  "ToMediaPart w img = MediaPart (MimeType img) (ToDataURI w img)"

fun mediaParts :: "World \<Rightarrow> ImageReference list \<Rightarrow> Part list \<Rightarrow> Part list" where
  "mediaParts w [] parts = parts"
| "mediaParts w (img # images) parts = mediaParts w images (parts @ [ToMediaPart w img])"

definition BuildMultimodalMessage :: "World \<Rightarrow> string \<Rightarrow> ImageReference list \<Rightarrow> Message" where
  "BuildMultimodalMessage w text images =
     NewUserMessage (mediaParts w images ([] @ [TextPart text]))"

text \<open>
  The remote success condition as the specification words it: the GET
  succeeds and the status is in the 2xx class.
\<close>

definition spec_remoteOK :: "World \<Rightarrow> runes \<Rightarrow> bool" where
  "spec_remoteOK w url =
     (case httpGet w url of
        None \<Rightarrow> False
      | Some resp \<Rightarrow> 200 \<le> StatusCode resp \<and> StatusCode resp < 300)"

section \<open>Chat flow (package flows)\<close>

record ChatRequest =
  UserInput :: string
  Model :: string
  SystemPrompt :: string
  History :: "Message list"
  ImagePaths :: "runes list"

record ChatResponse =
  Output :: string
  DurationMs :: int
  TTFCMs :: int
  Chunks :: int
  Error :: "error option"
  ImagesLoaded :: int

text \<open>
  A \<open>StreamCallback\<close> receives a chunk and may return an error. The options
  handed to \<open>genkit.GenerateText\<close> are the system prompt, the model name, the
  message list and, when a callback was given, the streaming handler.
\<close>

type_synonym StreamCallback = "string \<Rightarrow> error option"

record GenerateOptions =
  System :: string
  ModelName :: string
  Messages :: "Message list"
  Streaming :: bool

text \<open>
  Clock readings are nanoseconds of the monotonic clock that \<open>time.Now\<close>
  attaches and that \<open>Sub\<close> and \<open>Since\<close> subtract. The zero \<open>time.Time\<close> of
  \<open>firstChunkTime\<close>, which \<open>time.Now\<close> never returns, is \<open>None\<close>.
  \<open>Duration.Milliseconds\<close> divides by \<open>10^6\<close>, truncating towards zero.
\<close>

type_synonym Time = int

definition Milliseconds :: "int \<Rightarrow> int" where
  "Milliseconds d = (if 0 \<le> d then d div 1000000 else - ((- d) div 1000000))"

text \<open>
  One call of the backend, as \<open>generate\<close> observes it: the calls it makes to
  the streaming handler (the clock reading inside the handler and the chunk's
  text, in order), what \<open>GenerateText\<close> returns, and the clock reading taken
  right after it returns. A cancelled context shows as the returned error.
\<close>

record BackendRun =
  handlerCalls :: "(Time \<times> string) list"
  returned :: "error + string"
  returnTime :: Time

text \<open>
  The two variables the streaming handler captures, and one call of it: it
  updates them and returns what the caller's callback returns for the chunk.
\<close>

record StreamState =
  chunkCount :: int
  firstChunkTime :: "Time option"

definition onChunk :: "StreamCallback \<Rightarrow> Time \<Rightarrow> string \<Rightarrow> StreamState
    \<Rightarrow> StreamState \<times> error option" where
  "onChunk streamCallback now chunk st =
     (let st1 = (if chunkCount st = 0 then st\<lparr>firstChunkTime := Some now\<rparr> else st);
          st2 = st1\<lparr>chunkCount := chunkCount st1 + 1\<rparr>
      in (st2, streamCallback chunk))"

fun loadImages :: "World \<Rightarrow> runes list \<Rightarrow> ImageReference list \<Rightarrow> ImageReference list" where
  "loadImages w [] images = images"
| "loadImages w (path # paths) images =
     (case LoadImage w path of
        Inl err \<Rightarrow> loadImages w paths images
      | Inr img \<Rightarrow> loadImages w paths (images @ [img]))"

definition buildCurrentMessage :: "World \<Rightarrow> ChatRequest \<Rightarrow> ChatResponse
    \<Rightarrow> Message \<times> ChatResponse" where
  "buildCurrentMessage w req response =
     (if length (ImagePaths req) > 0 then
        (let images = loadImages w (ImagePaths req) [] in
         if length images > 0 then
           (BuildMultimodalMessage w (UserInput req) images,
            response\<lparr>ImagesLoaded := int (length images)\<rparr>)
         else (NewUserTextMessage (UserInput req), response))
      else (NewUserTextMessage (UserInput req), response))"

definition generateOptions :: "World \<Rightarrow> ChatRequest \<Rightarrow> StreamCallback option
    \<Rightarrow> GenerateOptions" where
  "generateOptions w req streamCallback =
     (let messages = [] @ History req;
          currentMessage = fst (buildCurrentMessage w req
             \<lparr>Output = [], DurationMs = 0, TTFCMs = 0, Chunks = 0, Error = None,
              ImagesLoaded = 0\<rparr>)
      in \<lparr>System = SystemPrompt req, ModelName = Model req,
          Messages = messages @ [currentMessage],
          Streaming = (streamCallback \<noteq> None)\<rparr>)"

definition generate :: "World \<Rightarrow> (GenerateOptions \<Rightarrow> BackendRun) \<Rightarrow> Time \<Rightarrow> ChatRequest
    \<Rightarrow> StreamCallback option \<Rightarrow> ChatResponse \<times> error option" where
  "generate w backend startTime req streamCallback =
     (let response = \<lparr>Output = [], DurationMs = 0, TTFCMs = 0, Chunks = 0, Error = None,
                      ImagesLoaded = 0\<rparr>;
          st0 = \<lparr>chunkCount = 0, firstChunkTime = None\<rparr>;
          response1 = snd (buildCurrentMessage w req response);
          run = backend (generateOptions w req streamCallback);
          st = (case streamCallback of
                  None \<Rightarrow> st0
                | Some cb \<Rightarrow> foldl (\<lambda>st' (now, chunk). fst (onChunk cb now chunk st')) st0 (handlerCalls run));
          duration = returnTime run - startTime;
          response2 = response1\<lparr>DurationMs := Milliseconds duration, Chunks := chunkCount st\<rparr>;
          response3 = (case firstChunkTime st of
                         None \<Rightarrow> response2
                       | Some t \<Rightarrow> response2\<lparr>TTFCMs := Milliseconds (t - startTime)\<rparr>)
      in case returned run of
           Inl err \<Rightarrow> (response3\<lparr>Error := Some err\<rparr>, Some err)
         | Inr output \<Rightarrow> (response3\<lparr>Output := output\<rparr>, None))"



section \<open>Cancellation in the main loop (package main)\<close>

text \<open>
  The main loop and the signal goroutine share \<open>genCancel\<close> under the mutex
  \<open>mu\<close>; signals reach the goroutine through the channel \<open>sigChan\<close>,
  which buffers one. Each event below is one step of the run time, of the
  goroutine or of the main loop:
  \<^item> \<open>Signal\<close>: an interrupt signal arrives; it is put into \<open>sigChan\<close> when
    the buffer has room and dropped otherwise (the send does not block);
  \<^item> \<open>Receive\<close>: the goroutine, at the head of its \<open>range\<close> loop, takes a
    signal from \<open>sigChan\<close>;
  \<^item> \<open>Handle\<close>: the goroutine, holding a signal, runs its locked section
    (lock, call \<open>genCancel\<close> if it is not nil, unlock) and goes back to the
    head of the loop;
  \<^item> \<open>Arm\<close>: the main loop creates the context of a turn and stores its
    cancel function (lock, \<open>WithCancel\<close>, store, unlock);
  \<^item> \<open>Return outcome\<close>: \<open>RunWithStreaming\<close> returns; the loop takes the
    cancelled branch when there is an error and the context is cancelled, the
    error branch when there is an error and it is not, the success path
    otherwise;
  \<^item> \<open>CleanupCancel\<close>, \<open>CleanupClear\<close>: the two halves of \<open>cleanup\<close>,
    the call of \<open>cancel\<close> and the locked store of nil.
  The main loop can take any of its steps between a \<open>Signal\<close>, its
  \<open>Receive\<close> and its \<open>Handle\<close>.

  Contexts are numbered in creation order; a cancel function is identified
  with the number of its context, \<open>cancelled\<close> holds the contexts whose
  cancel function has run (running it again changes nothing), \<open>created\<close>
  counts the contexts made so far and \<open>fired\<close> the calls the goroutine has
  made of a stored cancel function. For stating what an interrupt does, each
  signal carries a note of the handle that was stored when it arrived, and
  \<open>leaked\<close> collects the contexts that the goroutine cancelled for a signal
  that had arrived when another handle, or none, was stored. The program
  reads neither the notes nor \<open>leaked\<close>.
\<close>

datatype Outcome = Succeeded | Failed | Cancelled











section \<open>History snapshot in the database (package db)\<close>

text \<open>
  The table \<open>chat_history\<close> is the list of its rows (role, content) in
  \<open>id\<close> order. A transaction works on a copy of the table that replaces the
  committed one at a successful commit and is dropped by a rollback; this is
  the contract of the database, taken as given. Each database call of
  \<open>SaveHistory\<close> may fail: \<open>Faults\<close> says which. \<open>json.Marshal\<close> is a
  parameter.
\<close>

type_synonym Row = "string \<times> string"

record Store =
  chat_history :: "Row list"
  txn :: "Row list option"

record Faults =
  beginErr :: "error option"
  deleteErr :: "error option"
  prepareErr :: "error option"
  insertErr :: "nat \<Rightarrow> error option"
  commitErr :: "error option"

definition BeginTx :: "Faults \<Rightarrow> Store \<Rightarrow> error + Store" where
  "BeginTx f s =
     (case beginErr f of
        Some e \<Rightarrow> Inl e
      | None \<Rightarrow> Inr (s\<lparr>txn := Some (chat_history s)\<rparr>))"

definition Rollback :: "Store \<Rightarrow> Store" where
  "Rollback s = s\<lparr>txn := None\<rparr>"

definition ExecDelete :: "Faults \<Rightarrow> Store \<Rightarrow> error + Store" where
  "ExecDelete f s =
     (case deleteErr f of
        Some e \<Rightarrow> Inl e
      | None \<Rightarrow> Inr (s\<lparr>txn := map_option (\<lambda>rows. []) (txn s)\<rparr>))"

definition StmtExec :: "Faults \<Rightarrow> nat \<Rightarrow> Row \<Rightarrow> Store \<Rightarrow> error + Store" where
  "StmtExec f i row s =
     (case insertErr f i of
        Some e \<Rightarrow> Inl e
      | None \<Rightarrow> Inr (s\<lparr>txn := map_option (\<lambda>rows. rows @ [row]) (txn s)\<rparr>))"

definition Commit :: "Faults \<Rightarrow> Store \<Rightarrow> error option \<times> Store" where
  "Commit f s =
     (case commitErr f of
        Some e \<Rightarrow> (Some e, s\<lparr>txn := None\<rparr>)
      | None \<Rightarrow>
          (case txn s of
             None \<Rightarrow> (Some (DbError ''sql: transaction has already been committed or rolled back''), s)
           | Some rows \<Rightarrow> (None, s\<lparr>chat_history := rows, txn := None\<rparr>)))"

text \<open>
  The insert loop; \<open>i\<close> counts the inserts made so far. It returns the error
  that ended it, if any, with the state reached.
\<close>

fun insertMessages :: "Faults \<Rightarrow> (Part list \<Rightarrow> error + string) \<Rightarrow> nat \<Rightarrow> Message list
    \<Rightarrow> Store \<Rightarrow> error option \<times> Store" where
  "insertMessages f Marshal i [] s = (None, s)"
| "insertMessages f Marshal i (m # ms) s =
     (case Marshal (Content m) of
        Inl err \<Rightarrow> (Some err, s)
      | Inr b \<Rightarrow>
          (case StmtExec f i (Role m, b) s of
             Inl err \<Rightarrow> (Some err, s)
           | Inr s' \<Rightarrow> insertMessages f Marshal (i + 1) ms s'))"

text \<open>
  \<open>defer tx.Rollback()\<close> runs on every return after \<open>BeginTx\<close> succeeded,
  also after a commit, where it finds the transaction closed.
\<close>

definition SaveHistory :: "Faults \<Rightarrow> (Part list \<Rightarrow> error + string) \<Rightarrow> Store \<Rightarrow> Message list
    \<Rightarrow> error option \<times> Store" where
  "SaveHistory f Marshal s msgs =
     (case BeginTx f s of
        Inl err \<Rightarrow> (Some err, s)
      | Inr s1 \<Rightarrow>
          (case ExecDelete f s1 of
             Inl err \<Rightarrow> (Some err, Rollback s1)
           | Inr s2 \<Rightarrow>
               (case prepareErr f of
                  Some err \<Rightarrow> (Some err, Rollback s2)
                | None \<Rightarrow>
                    (case insertMessages f Marshal 0 msgs s2 of
                       (Some err, s3) \<Rightarrow> (Some err, Rollback s3)
                     | (None, s3) \<Rightarrow>
                         (let (res, s4) = Commit f s3 in (res, Rollback s4))))))"

text \<open>
  \<open>rowOf\<close>: a row holds a message's role and its marshalled content.
  \<open>noFault\<close>: no step of \<open>SaveHistory\<close> on the given messages fails.
\<close>

definition rowOf :: "(Part list \<Rightarrow> error + string) \<Rightarrow> Message \<Rightarrow> Row \<Rightarrow> bool" where
  "rowOf Marshal m row = (fst row = Role m \<and> Marshal (Content m) = Inr (snd row))"

definition noFault :: "Faults \<Rightarrow> (Part list \<Rightarrow> error + string) \<Rightarrow> Message list \<Rightarrow> bool" where
  "noFault f Marshal msgs =
     (beginErr f = None \<and> deleteErr f = None \<and> prepareErr f = None \<and>
      (\<forall>j < length msgs. isOK (Marshal (Content (msgs ! j))) \<and> insertErr f j = None) \<and>
      commitErr f = None)"

text \<open>The images that load, in the order of their paths.\<close>

definition loadedImages :: "World \<Rightarrow> runes list \<Rightarrow> ImageReference list" where
  "loadedImages w paths =
     concat (map (\<lambda>path. case LoadImage w path of Inl err \<Rightarrow> [] | Inr img \<Rightarrow> [img]) paths)"

text \<open>
  A world for concrete instances: five files and a directory, a home
  directory, three URLs. \<open>dottedI\<close> is U+0130, the capital I with a dot;
  \<open>picGif\<close> is the path \<open>./pic.g\<close>, U+0130, \<open>f\<close>, \<open>urlGif\<close> a URL
  that ends the same way, and \<open>spacedLine\<close> a line whose three tokens are
  separated by a no-break space and an ideographic space. The join puts a slash
  between its arguments; the encoder, a stand-in for base64, writes the data
  between brackets; the case table lowers U+0130 and U+212A as Unicode's
  does and leaves every other code point as it is, and the instances use no
  other code point above ASCII.
\<close>

definition dottedI :: rune where
  "dottedI = 0x130"

definition picGif :: runes where
  "picGif = str ''./pic.g'' @ [dottedI] @ str ''f''"

definition urlGif :: runes where
  "urlGif = str ''http://example.com/a.g'' @ [dottedI] @ str ''f''"

definition spacedLine :: runes where
  "spacedLine = str ''look'' @ [0xA0] @ picGif @ [0x3000] @ str ''now''"

definition exampleWorld :: World where
  "exampleWorld =
     \<lparr>Stat = (\<lambda>p. if p = str ''./diagram.png'' \<or> p = str ''./only.jpg'' \<or>
                     p = str ''./scan.tiff'' \<or> p = str ''/home/u/cat.jpg'' \<or> p = picGif
                  then Some \<lparr>IsDir = False\<rparr>
                  else if p = str ''./shots.png'' then Some \<lparr>IsDir = True\<rparr> else None),
      UserHomeDir = Some (str ''/home/u''),
      ReadFile = (\<lambda>p. if p = str ''./diagram.png'' then Some ''PNG-BYTES''
                      else if p = str ''./only.jpg'' \<or> p = str ''/home/u/cat.jpg''
                        then Some ''JPG-BYTES''
                      else if p = str ''./scan.tiff'' then Some ''TIFF-BYTES''
                      else if p = picGif then Some ''GIF-BYTES'' else None),
      httpGet = (\<lambda>u. if u = str ''http://example.com/a.png''
                        then Some \<lparr>StatusCode = 200, ContentType = [], Body = Some ''PNG-BYTES''\<rparr>
                      else if u = str ''https://example.com/b''
                        then Some \<lparr>StatusCode = 203, ContentType = ''image/gif'',
                                   Body = Some ''GIF-BYTES''\<rparr>
                      else if u = urlGif
                        then Some \<lparr>StatusCode = 200, ContentType = [], Body = Some ''GIF-BYTES''\<rparr>
                      else None),
      filepathJoin = (\<lambda>dir rest. dir @ str ''/'' @ rest),
      EncodeToString = (\<lambda>data. ''base64('' @ data @ '')''),
      LowerCase = (\<lambda>r. if r = 0x130 then 0x69 else if r = 0x212A then 0x6B else r)\<rparr>"

section \<open>Properties of the history manager\<close>

lemma enforceLimits_config: "config (enforceLimits h) = config h"
  by (simp add: enforceLimits_def Let_def)

lemma Add_config: "config (Add h model msg) = config h"
  by (simp add: Add_def enforceLimits_config)

lemma AddAll_config: "config (AddAll h calls) = config h"
  unfolding AddAll_def
  by (induction calls arbitrary: h) (auto simp: Add_config)

lemma Add_messages_pos:
  assumes "0 < maxMessages (config h)"
  shows "messages (Add h model msg) =
           drop (length (messages h) + 1 - nat (maxMessages (config h))) (messages h @ [msg])"
proof -
  let ?n = "length (messages h @ [msg])"
  have n: "?n = length (messages h) + 1" by simp
  have eq: "nat (int ?n - maxMessages (config h)) = ?n - nat (maxMessages (config h))"
    using assms by (simp add: nat_diff_distrib)
  show ?thesis
  proof (cases "int ?n > maxMessages (config h)")
    case True
    then have "messages (Add h model msg) =
        drop (nat (int ?n - maxMessages (config h))) (messages h @ [msg])"
      using assms by (simp add: Add_def enforceLimits_def Let_def)
    then show ?thesis using eq n by simp
  next
    case False
    then have le: "?n \<le> nat (maxMessages (config h))" using assms by linarith
    have "messages (Add h model msg) = messages h @ [msg]"
      using False by (simp add: Add_def enforceLimits_def Let_def)
    then show ?thesis using le by simp
  qed
qed

lemma Add_messages_zero:
  assumes "maxMessages (config h) = 0"
  shows "messages (Add h model msg) = messages h @ [msg]"
  using assms by (simp add: Add_def enforceLimits_def Let_def)

lemma AddAll_snoc: "AddAll h (calls @ [(model, msg)]) = Add (AddAll h calls) model msg"
  by (simp add: AddAll_def)

lemma drop_window_snoc:
  assumes "0 < (k::nat)"
  shows "drop (length (drop (length xs - k) xs) + 1 - k) (drop (length xs - k) xs @ [x]) =
         drop (length xs + 1 - k) (xs @ [x])"
proof (cases "length xs \<le> k")
  case True
  then show ?thesis by simp
next
  case False
  then have len: "length (drop (length xs - k) xs) = k" by simp
  have "drop (length (drop (length xs - k) xs) + 1 - k) (drop (length xs - k) xs @ [x]) =
        drop 1 (drop (length xs - k) xs @ [x])"
    by (simp only: len) simp
  also have "\<dots> = drop (length xs - k + 1) xs @ [x]"
    using False assms by simp
  also have "\<dots> = drop (length xs + 1 - k) (xs @ [x])"
  proof -
    have a: "length xs + 1 - k = length xs - k + 1" using False by arith
    have b: "length xs - k + 1 - length xs = 0" using False assms by arith
    show ?thesis unfolding a by (simp only: drop_append b drop_0)
  qed
  finally show ?thesis .
qed

lemma AddAll_messages_pos:
  assumes "0 < maxMessages (config h)"
    and "length (messages h) \<le> nat (maxMessages (config h))"
  shows "messages (AddAll h calls) =
           drop (length (messages h) + length calls - nat (maxMessages (config h)))
                (messages h @ map snd calls)"
proof (induction calls rule: rev_induct)
  case Nil
  then show ?case using assms(2) by (simp add: AddAll_def)
next
  case (snoc c calls)
  obtain model msg where c: "c = (model, msg)" by (cases c)
  let ?k = "nat (maxMessages (config h))"
  let ?xs = "messages h @ map snd calls"
  let ?d = "length (messages h) + length calls - ?k"
  have cfg: "0 < maxMessages (config (AddAll h calls))" using assms by (simp add: AddAll_config)
  have "messages (AddAll h (calls @ [c])) =
      drop (length (drop ?d ?xs) + 1 - ?k) (drop ?d ?xs @ [msg])"
    using Add_messages_pos[OF cfg] snoc.IH by (simp add: c AddAll_snoc AddAll_config)
  also have "\<dots> = drop (length ?xs + 1 - ?k) (?xs @ [msg])"
    using drop_window_snoc[of ?k ?xs msg] assms(1) by simp
  finally show ?case by (simp add: c)
qed

lemma AddAll_messages_zero:
  assumes "maxMessages (config h) = 0"
  shows "messages (AddAll h calls) = messages h @ map snd calls"
proof (induction calls rule: rev_induct)
  case Nil
  then show ?case by (simp add: AddAll_def)
next
  case (snoc c calls)
  obtain model msg where c: "c = (model, msg)" by (cases c)
  have "maxMessages (config (AddAll h calls)) = 0" using assms by (simp add: AddAll_config)
  from Add_messages_zero[OF this] show ?case using snoc.IH by (simp add: c AddAll_snoc)
qed

lemma NewHistoryManager_messages: "messages (NewHistoryManager opts) = []"
  by (simp add: NewHistoryManager_def Let_def)

lemma NewHistoryManager_nonneg: "0 \<le> maxMessages (config (NewHistoryManager opts))"
  by (simp add: NewHistoryManager_def Let_def)

lemma NewHistoryManager_WithMaxMessages:
  "maxMessages (config (NewHistoryManager [WithMaxMessages n])) = (if n < 0 then 5 else n)"
  by (simp add: NewHistoryManager_def WithMaxMessages_def Let_def)

text \<open>
  C2, as the code has it. For a manager made by \<open>NewHistoryManager\<close> whose
  capacity is positive, after any sequence of \<open>Add\<close> calls (so after each
  call of a longer sequence) the number of stored messages is at most the
  capacity, and the stored messages are the last capacity-many of the added
  ones, in the order they were added. The capacity has to be positive:
  \<open>enforceLimits\<close> evicts nothing when it is zero.
\<close>

theorem C2_add_keeps_newest:
  assumes "h = NewHistoryManager opts" and "0 < maxMessages (config h)"
  shows "Count (AddAll h calls) \<le> maxMessages (config h) \<and>
         GetAll (AddAll h calls) =
           drop (length calls - nat (maxMessages (config h))) (map snd calls)"
proof -
  have m: "messages h = []" using assms(1) by (simp add: NewHistoryManager_messages)
  have eq: "messages (AddAll h calls) =
      drop (length calls - nat (maxMessages (config h))) (map snd calls)"
    using AddAll_messages_pos[OF assms(2), of calls] m by simp
  have "length (messages (AddAll h calls)) \<le> nat (maxMessages (config h))"
    unfolding eq by simp
  then have "Count (AddAll h calls) \<le> maxMessages (config h)"
    using assms(2) by (simp add: Count_def)
  then show ?thesis using eq by (simp add: GetAll_def)
qed

theorem C2_add_keeps_newest_witness:
  "0 < maxMessages (config (NewHistoryManager [WithMaxMessages 2])) \<and>
   Count (AddAll (NewHistoryManager [WithMaxMessages 2])
      [(''m'', NewUserTextMessage ''a''), (''m'', NewModelTextMessage ''b''),
       (''m'', NewUserTextMessage ''c'')]) \<le> 2 \<and>
   GetAll (AddAll (NewHistoryManager [WithMaxMessages 2])
      [(''m'', NewUserTextMessage ''a''), (''m'', NewModelTextMessage ''b''),
       (''m'', NewUserTextMessage ''c'')]) =
     [NewModelTextMessage ''b'', NewUserTextMessage ''c'']"
  using C2_add_keeps_newest[of "NewHistoryManager [WithMaxMessages 2]" "[WithMaxMessages 2]"
     "[(''m'', NewUserTextMessage ''a''), (''m'', NewModelTextMessage ''b''),
       (''m'', NewUserTextMessage ''c'')]"]
  by (simp add: NewHistoryManager_def WithMaxMessages_def Let_def)

text \<open>
  C2 as stated fails for a manager configured with capacity zero: one \<open>Add\<close>
  leaves one message stored, more than the capacity.
\<close>

theorem C2_capacity_zero_counterexample:
  "\<not> (Count (AddAll (NewHistoryManager [WithMaxMessages 0]) [(''m'', NewUserTextMessage ''a'')])
       \<le> maxMessages (config (NewHistoryManager [WithMaxMessages 0])))"
  by (simp add: NewHistoryManager_def WithMaxMessages_def Let_def AddAll_def Add_def
      enforceLimits_def Count_def)

text \<open>
  C3, as the code has it. \<open>Set\<close> stores exactly the list it is given, all
  of it and in order, and leaves the configuration alone; so after \<open>Set\<close>
  with a list longer than the capacity the count exceeds the capacity. The
  next \<open>Add\<close> brings the count back within a positive capacity.
\<close>

theorem C3_set_copies_all:
  "GetAll (Set h msgs) = msgs \<and>
   config (Set h msgs) = config h \<and>
   (maxMessages (config h) < int (length msgs) \<longrightarrow>
      maxMessages (config h) < Count (Set h msgs)) \<and>
   (0 < maxMessages (config h) \<longrightarrow>
      Count (Add (Set h msgs) model msg) \<le> maxMessages (config h))"
proof -
  have a: "messages (Set h msgs) = msgs" by (simp add: Set_def)
  have b: "config (Set h msgs) = config h" by (simp add: Set_def)
  have c: "0 < maxMessages (config h) \<Longrightarrow>
      Count (Add (Set h msgs) model msg) \<le> maxMessages (config h)"
  proof -
    assume pos: "0 < maxMessages (config h)"
    then have "0 < maxMessages (config (Set h msgs))" using b by simp
    from Add_messages_pos[OF this, of model msg]
    have "length (messages (Add (Set h msgs) model msg)) \<le> nat (maxMessages (config h))"
      using a b by simp
    then show ?thesis using pos by (simp add: Count_def)
  qed
  show ?thesis using a b c by (simp add: GetAll_def Count_def)
qed

theorem C3_set_copies_all_witness:
  "GetAll (Set (NewHistoryManager [WithMaxMessages 2])
      [NewUserTextMessage ''a'', NewModelTextMessage ''b'', NewUserTextMessage ''c'']) =
     [NewUserTextMessage ''a'', NewModelTextMessage ''b'', NewUserTextMessage ''c''] \<and>
   maxMessages (config (NewHistoryManager [WithMaxMessages 2])) < 3 \<and>
   maxMessages (config (NewHistoryManager [WithMaxMessages 2])) <
     Count (Set (NewHistoryManager [WithMaxMessages 2])
      [NewUserTextMessage ''a'', NewModelTextMessage ''b'', NewUserTextMessage ''c'']) \<and>
   0 < maxMessages (config (NewHistoryManager [WithMaxMessages 2])) \<and>
   Count (Add (Set (NewHistoryManager [WithMaxMessages 2])
      [NewUserTextMessage ''a'', NewModelTextMessage ''b'', NewUserTextMessage ''c''])
      ''m'' (NewModelTextMessage ''d'')) \<le> 2"
  using C3_set_copies_all[of "NewHistoryManager [WithMaxMessages 2]"
      "[NewUserTextMessage ''a'', NewModelTextMessage ''b'', NewUserTextMessage ''c'']"
      "''m''" "NewModelTextMessage ''d''"]
  by (simp add: NewHistoryManager_WithMaxMessages)

text \<open>
  C3 as stated fails: with capacity 2, \<open>Set\<close> with three messages keeps all
  three, not the newest two, and the count is above the capacity.
\<close>

theorem C3_set_no_truncation_counterexample:
  "\<not> (GetAll (Set (NewHistoryManager [WithMaxMessages 2])
          [NewUserTextMessage ''a'', NewModelTextMessage ''b'', NewUserTextMessage ''c'']) =
        [NewModelTextMessage ''b'', NewUserTextMessage ''c''] \<and>
      Count (Set (NewHistoryManager [WithMaxMessages 2])
          [NewUserTextMessage ''a'', NewModelTextMessage ''b'', NewUserTextMessage ''c''])
        \<le> maxMessages (config (NewHistoryManager [WithMaxMessages 2])))"
  by (simp add: Set_def GetAll_def Count_def NewHistoryManager_def WithMaxMessages_def Let_def)

text \<open>
  C8, as the code has it. A negative capacity is replaced by the default 5 at
  construction, a capacity of zero or more is kept as given, so the capacity
  of a constructed manager is never negative (it can be zero); the manager
  starts empty; when the capacity is positive the count stays within it
  after every sequence of \<open>Add\<close> calls; and when it is zero every added
  message is kept.
\<close>

theorem C8_capacity_normalised:
  "maxMessages (config (NewHistoryManager [WithMaxMessages n])) = (if n < 0 then 5 else n) \<and>
   maxMessages (config (NewHistoryManager [])) = 5 \<and>
   0 \<le> maxMessages (config (NewHistoryManager opts)) \<and>
   Count (NewHistoryManager opts) = 0 \<and>
   (0 < maxMessages (config (NewHistoryManager opts)) \<longrightarrow>
      Count (AddAll (NewHistoryManager opts) calls)
        \<le> maxMessages (config (NewHistoryManager opts))) \<and>
   (maxMessages (config (NewHistoryManager opts)) = 0 \<longrightarrow>
      GetAll (AddAll (NewHistoryManager opts) calls) = map snd calls)"
proof -
  have zero: "GetAll (AddAll (NewHistoryManager opts) calls) = map snd calls"
    if z: "maxMessages (config (NewHistoryManager opts)) = 0"
    using AddAll_messages_zero[OF z, of calls]
    by (simp add: GetAll_def NewHistoryManager_messages)
  have bound: "Count (AddAll (NewHistoryManager opts) calls)
        \<le> maxMessages (config (NewHistoryManager opts))"
    if pos: "0 < maxMessages (config (NewHistoryManager opts))"
  proof -
    have "length (messages (AddAll (NewHistoryManager opts) calls))
        \<le> nat (maxMessages (config (NewHistoryManager opts)))"
      using AddAll_messages_pos[OF pos, of calls] by (simp add: NewHistoryManager_messages)
    then show ?thesis using pos by (simp add: Count_def)
  qed
  have d: "maxMessages (config (NewHistoryManager [])) = 5"
    by (simp add: NewHistoryManager_def Let_def)
  show ?thesis
    using bound zero d NewHistoryManager_nonneg[of opts] NewHistoryManager_WithMaxMessages[of n]
    by (simp add: Count_def NewHistoryManager_messages)
qed

theorem C8_capacity_normalised_witness:
  "maxMessages (config (NewHistoryManager [WithMaxMessages (- 3)])) = 5 \<and>
   0 < maxMessages (config (NewHistoryManager [WithMaxMessages (- 3)])) \<and>
   Count (AddAll (NewHistoryManager [WithMaxMessages (- 3)])
      [(''m'', NewUserTextMessage ''a''), (''m'', NewModelTextMessage ''b'')]) \<le> 5 \<and>
   maxMessages (config (NewHistoryManager [WithMaxMessages 0])) = 0 \<and>
   GetAll (AddAll (NewHistoryManager [WithMaxMessages 0])
      [(''m'', NewUserTextMessage ''a''), (''m'', NewModelTextMessage ''b'')]) =
     [NewUserTextMessage ''a'', NewModelTextMessage ''b'']"
  using C8_capacity_normalised[of "- 3" "[WithMaxMessages (- 3)]"
      "[(''m'', NewUserTextMessage ''a''), (''m'', NewModelTextMessage ''b'')]"]
    C8_capacity_normalised[of 0 "[WithMaxMessages 0]"
      "[(''m'', NewUserTextMessage ''a''), (''m'', NewModelTextMessage ''b'')]"]
  by (simp add: NewHistoryManager_WithMaxMessages)

text \<open>
  C8 as stated fails at capacity zero: the constructor keeps the zero, so
  the capacity is neither the default nor positive.
\<close>

theorem C8_zero_kept_counterexample:
  "\<not> (maxMessages (config (NewHistoryManager [WithMaxMessages 0])) = 5 \<or>
      0 < maxMessages (config (NewHistoryManager [WithMaxMessages 0])))"
  by (simp add: NewHistoryManager_def WithMaxMessages_def Let_def)

section \<open>Properties of the history snapshot\<close>

lemma StmtExec_committed: "StmtExec f i row s = Inr s' \<Longrightarrow> chat_history s' = chat_history s"
  by (auto simp: StmtExec_def split: option.splits)

lemma insertMessages_committed:
  "insertMessages f Marshal i ms s = (res, s') \<Longrightarrow> chat_history s' = chat_history s"
proof (induction ms arbitrary: i s)
  case Nil
  then show ?case by simp
next
  case (Cons m ms)
  then show ?case
    by (auto split: sum.splits dest: StmtExec_committed)
qed

lemma insertMessages_rows:
  "insertMessages f Marshal i ms s = (None, s') \<Longrightarrow> txn s = Some rows \<Longrightarrow>
     \<exists>rows'. txn s' = Some (rows @ rows') \<and> list_all2 (rowOf Marshal) ms rows'"
proof (induction ms arbitrary: i s rows)
  case Nil
  then show ?case by simp
next
  case (Cons m ms)
  from Cons.prems(1) obtain b s1 where
    b: "Marshal (Content m) = Inr b" and
    s1: "StmtExec f i (Role m, b) s = Inr s1" and
    rest: "insertMessages f Marshal (i + 1) ms s1 = (None, s')"
    by (auto split: sum.splits)
  from s1 Cons.prems(2) have "txn s1 = Some (rows @ [(Role m, b)])"
    by (auto simp: StmtExec_def split: option.splits)
  from Cons.IH[OF rest this] obtain rows' where
    r: "txn s' = Some ((rows @ [(Role m, b)]) @ rows')" "list_all2 (rowOf Marshal) ms rows'"
    by blast
  have "list_all2 (rowOf Marshal) (m # ms) ((Role m, b) # rows')"
    using r(2) b by (simp add: rowOf_def)
  then show ?case using r(1) by auto
qed

lemma insertMessages_None_iff:
  "fst (insertMessages f Marshal i ms s) = None \<longleftrightarrow>
     (\<forall>j < length ms. isOK (Marshal (Content (ms ! j))) \<and> insertErr f (i + j) = None)"
proof (induction ms arbitrary: i s)
  case Nil
  then show ?case by simp
next
  case (Cons m ms)
  show ?case
  proof (cases "Marshal (Content m)")
    case (Inl e)
    then show ?thesis by auto
  next
    case (Inr b)
    show ?thesis
    proof (cases "insertErr f i")
      case (Some e)
      then show ?thesis using Inr by (auto simp: StmtExec_def)
    next
      case None
      then obtain s1 where s1: "StmtExec f i (Role m, b) s = Inr s1"
        by (simp add: StmtExec_def)
      have "fst (insertMessages f Marshal i (m # ms) s) = None \<longleftrightarrow>
            fst (insertMessages f Marshal (i + 1) ms s1) = None"
        using Inr s1 by simp
      also have "\<dots> \<longleftrightarrow> (\<forall>j < length ms. isOK (Marshal (Content (ms ! j))) \<and>
            insertErr f (i + 1 + j) = None)"
        by (rule Cons.IH)
      also have "\<dots> \<longleftrightarrow> (\<forall>j < length (m # ms). isOK (Marshal (Content ((m # ms) ! j))) \<and>
            insertErr f (i + j) = None)"
        using Inr None by (auto simp: less_Suc_eq_0_disj)
      finally show ?thesis .
    qed
  qed
qed

text \<open>
  C10. Whatever \<open>SaveHistory\<close> returns: if it returns an error (a failure
  to begin, to delete, to prepare, to marshal a message, to insert a row or to
  commit) the committed table is what it was before the call; if it returns
  no error the committed table has exactly one row per given message, in the
  given order, holding the message's role and its marshalled content. It
  returns no error exactly when no step fails.
\<close>

theorem C10_save_history_atomic:
  assumes "SaveHistory f Marshal s msgs = (res, s')"
  shows "(res \<noteq> None \<longrightarrow> chat_history s' = chat_history s) \<and>
         (res = None \<longrightarrow> list_all2 (rowOf Marshal) msgs (chat_history s')) \<and>
         (res = None \<longleftrightarrow> noFault f Marshal msgs)"
proof (cases "beginErr f")
  case (Some e)
  then show ?thesis using assms by (auto simp: SaveHistory_def BeginTx_def noFault_def)
next
  case b: None
  let ?s1 = "s\<lparr>txn := Some (chat_history s)\<rparr>"
  show ?thesis
  proof (cases "deleteErr f")
    case (Some e)
    then show ?thesis using assms b
      by (auto simp: SaveHistory_def BeginTx_def ExecDelete_def Rollback_def noFault_def)
  next
    case d: None
    let ?s2 = "?s1\<lparr>txn := Some []\<rparr>"
    show ?thesis
    proof (cases "prepareErr f")
      case (Some e)
      then show ?thesis using assms b d
        by (auto simp: SaveHistory_def BeginTx_def ExecDelete_def Rollback_def noFault_def)
    next
      case p: None
      obtain r3 s3 where ins: "insertMessages f Marshal 0 msgs ?s2 = (r3, s3)"
        by (cases "insertMessages f Marshal 0 msgs ?s2")
      have ch3: "chat_history s3 = chat_history s"
        using insertMessages_committed[OF ins] by simp
      have r3: "r3 = None \<longleftrightarrow>
          (\<forall>j < length msgs. isOK (Marshal (Content (msgs ! j))) \<and> insertErr f j = None)"
        using insertMessages_None_iff[of f Marshal 0 msgs ?s2] ins by simp
      show ?thesis
      proof (cases r3)
        case (Some e)
        then have "res = Some e" "s' = Rollback s3" using assms b d p ins
          by (auto simp: SaveHistory_def BeginTx_def ExecDelete_def)
        then show ?thesis using ch3 r3 Some by (auto simp: Rollback_def noFault_def)
      next
        case None
        with ins insertMessages_rows[of f Marshal 0 msgs ?s2 s3 "[]"]
        obtain rows' where rows: "txn s3 = Some rows'" "list_all2 (rowOf Marshal) msgs rows'"
          by auto
        have sv: "(res, s') = (let (r, s4) = Commit f s3 in (r, Rollback s4))"
          using assms b d p ins None
          by (auto simp: SaveHistory_def BeginTx_def ExecDelete_def)
        show ?thesis
        proof (cases "commitErr f")
          case (Some e)
          then show ?thesis using sv ch3
            by (auto simp: Commit_def Rollback_def noFault_def)
        next
          case c: None
          then have "res = None" "chat_history s' = rows'" using sv rows
            by (auto simp: Commit_def Rollback_def)
          then show ?thesis using rows r3 None b d p c by (auto simp: noFault_def)
        qed
      qed
    qed
  qed
qed

theorem C10_save_history_atomic_witness:
  "chat_history (snd (SaveHistory
      \<lparr>beginErr = None, deleteErr = None, prepareErr = None,
        insertErr = (\<lambda>i. if i = 1 then Some (DbError ''disk full'') else None),
        commitErr = None\<rparr>
      (\<lambda>parts. Inr (concat (map (\<lambda>p. case p of TextPart t \<Rightarrow> t | MediaPart c d \<Rightarrow> d) parts)))
      \<lparr>chat_history = [(''user'', ''old'')], txn = None\<rparr>
      [NewUserTextMessage ''hi'', NewModelTextMessage ''yo''])) = [(''user'', ''old'')] \<and>
   list_all2
     (rowOf (\<lambda>parts. Inr (concat (map (\<lambda>p. case p of TextPart t \<Rightarrow> t | MediaPart c d \<Rightarrow> d) parts))))
     [NewUserTextMessage ''hi'', NewModelTextMessage ''yo'']
     (chat_history (snd (SaveHistory
        \<lparr>beginErr = None, deleteErr = None, prepareErr = None, insertErr = (\<lambda>i. None),
          commitErr = None\<rparr>
        (\<lambda>parts. Inr (concat (map (\<lambda>p. case p of TextPart t \<Rightarrow> t | MediaPart c d \<Rightarrow> d) parts)))
        \<lparr>chat_history = [(''user'', ''old'')], txn = None\<rparr>
        [NewUserTextMessage ''hi'', NewModelTextMessage ''yo''])))"
proof -
  let ?M = "\<lambda>parts. Inr (concat (map (\<lambda>p. case p of TextPart t \<Rightarrow> t | MediaPart c d \<Rightarrow> d) parts))"
  let ?s = "\<lparr>chat_history = [(''user'', ''old'')], txn = None\<rparr>"
  let ?msgs = "[NewUserTextMessage ''hi'', NewModelTextMessage ''yo'']"
  let ?bad = "\<lparr>beginErr = None, deleteErr = None, prepareErr = None,
        insertErr = (\<lambda>i. if i = (1::nat) then Some (DbError ''disk full'') else None),
        commitErr = None\<rparr>"
  let ?good = "\<lparr>beginErr = None, deleteErr = None, prepareErr = None,
        insertErr = (\<lambda>i::nat. None), commitErr = None\<rparr>"
  have bad: "SaveHistory ?bad ?M ?s ?msgs = (Some (DbError ''disk full''), ?s)"
    by (simp add: SaveHistory_def BeginTx_def ExecDelete_def StmtExec_def Commit_def
        Rollback_def NewUserTextMessage_def NewModelTextMessage_def)
  have good: "SaveHistory ?good ?M ?s ?msgs =
      (None, \<lparr>chat_history = [(RoleUser, ''hi''), (RoleModel, ''yo'')], txn = None\<rparr>)"
    by (simp add: SaveHistory_def BeginTx_def ExecDelete_def StmtExec_def Commit_def
        Rollback_def NewUserTextMessage_def NewModelTextMessage_def)
  show ?thesis
    using C10_save_history_atomic[OF bad] C10_save_history_atomic[OF good]
    unfolding bad good by simp
qed

section \<open>Properties of image loading and of the chat flow\<close>

lemma mediaParts_eq: "mediaParts w images parts = parts @ map (ToMediaPart w) images"
  by (induction images arbitrary: parts) auto

lemma loadImages_eq: "loadImages w paths images = images @ loadedImages w paths"
  by (induction paths arbitrary: images) (auto simp: loadedImages_def split: sum.splits)

lemma buildCurrentMessage_fst:
  "fst (buildCurrentMessage w req response) =
     (if loadedImages w (ImagePaths req) = [] then NewUserTextMessage (UserInput req)
      else NewUserMessage (TextPart (UserInput req) #
             map (ToMediaPart w) (loadedImages w (ImagePaths req))))"
  by (auto simp: buildCurrentMessage_def Let_def loadImages_eq BuildMultimodalMessage_def
      mediaParts_eq loadedImages_def)

lemma buildCurrentMessage_snd:
  "ImagesLoaded response = 0 \<Longrightarrow>
   snd (buildCurrentMessage w req response) =
     response\<lparr>ImagesLoaded := int (length (loadedImages w (ImagePaths req)))\<rparr>"
  by (auto simp: buildCurrentMessage_def Let_def loadImages_eq loadedImages_def)

lemma generateOptions_eq:
  "generateOptions w req streamCallback =
     \<lparr>System = SystemPrompt req, ModelName = Model req,
      Messages = History req @
        [if loadedImages w (ImagePaths req) = [] then NewUserTextMessage (UserInput req)
         else NewUserMessage (TextPart (UserInput req) #
                map (ToMediaPart w) (loadedImages w (ImagePaths req)))],
      Streaming = (streamCallback \<noteq> None)\<rparr>"
  by (simp add: generateOptions_def buildCurrentMessage_fst)

lemma generate_error:
  "snd (generate w backend startTime req streamCallback) =
     (case returned (backend (generateOptions w req streamCallback)) of
        Inl err \<Rightarrow> Some err | Inr output \<Rightarrow> None)"
  by (simp add: generate_def Let_def split: sum.splits)

lemma generate_Error:
  "Error (fst (generate w backend startTime req streamCallback)) =
     (case returned (backend (generateOptions w req streamCallback)) of
        Inl err \<Rightarrow> Some err | Inr output \<Rightarrow> None)"
  by (simp add: generate_def Let_def buildCurrentMessage_snd split: sum.splits option.splits)

lemma generate_Output:
  "Output (fst (generate w backend startTime req streamCallback)) =
     (case returned (backend (generateOptions w req streamCallback)) of
        Inl err \<Rightarrow> [] | Inr output \<Rightarrow> output)"
  by (simp add: generate_def Let_def buildCurrentMessage_snd split: sum.splits option.splits)


text \<open>
  C6. Whatever the backend is, what \<open>generate\<close> returns is what the backend
  returns on these options: the request's system prompt and model, and the
  message list made of the request's history, unchanged and in its order,
  followed by exactly one message for the current turn. That message is, when
  at least one image loaded, a user message whose first part is the text and
  whose other parts are the media parts of the loaded images in request
  order, and otherwise the text-only user message. So this list, and no
  other, is the one sent to the backend.
\<close>

theorem C6_message_list:
  "(let loaded = loadedImages w (ImagePaths req);
        current = (if loaded = [] then NewUserTextMessage (UserInput req)
                   else NewUserMessage (TextPart (UserInput req) # map (ToMediaPart w) loaded));
        sent = \<lparr>System = SystemPrompt req, ModelName = Model req,
                 Messages = History req @ [current],
                 Streaming = (streamCallback \<noteq> None)\<rparr>
    in snd (generate w backend startTime req streamCallback) =
         (case returned (backend sent) of Inl err \<Rightarrow> Some err | Inr output \<Rightarrow> None) \<and>
       Error (fst (generate w backend startTime req streamCallback)) =
         (case returned (backend sent) of Inl err \<Rightarrow> Some err | Inr output \<Rightarrow> None) \<and>
       Output (fst (generate w backend startTime req streamCallback)) =
         (case returned (backend sent) of Inl err \<Rightarrow> [] | Inr output \<Rightarrow> output))"
  unfolding Let_def generate_error generate_Error generate_Output generateOptions_eq
  by simp

lemma not_home_of_URL: "isURL path \<Longrightarrow> \<not> HasPrefix path (str ''~/'')"
  by (cases path) (auto simp: isURL_def HasPrefix_def str_def)

lemma LoadImage_URL: "isURL path \<Longrightarrow> LoadImage w path = loadImageFromURL w path"
  by (simp add: LoadImage_def not_home_of_URL)

text \<open>
  C7, as the code has it. For an http or https path, \<open>LoadImage\<close> succeeds
  exactly when the GET succeeds, the status is 200 and the body is read; the
  MIME type of the result is the \<open>Content-Type\<close> header when that is not
  empty, else the type of the URL's lower-cased extension when that is
  supported, else \<open>image/jpeg\<close>.
\<close>

theorem C7_remote_image:
  assumes "isURL path"
  shows "(isOK (LoadImage w path) \<longleftrightarrow>
            (\<exists>resp data. httpGet w path = Some resp \<and> StatusCode resp = 200 \<and>
                         Body resp = Some data)) \<and>
         (\<forall>img. LoadImage w path = Inr img \<longrightarrow>
            (\<exists>resp. httpGet w path = Some resp \<and> Path img = path \<and>
               Body resp = Some (Data img) \<and>
               MimeType img =
                 (if ContentType resp \<noteq> [] then ContentType resp
                  else case SupportedImageFormats (ToLower (LowerCase w) (Ext path)) of
                         Some m \<Rightarrow> m | None \<Rightarrow> ''image/jpeg'')))"
  unfolding LoadImage_URL[OF assms]
  by (auto simp: loadImageFromURL_def Let_def split: option.splits)

lemma example_ext:
  "ToLower (LowerCase exampleWorld) (Ext (str ''http://example.com/a.png'')) = str ''.png''"
  "ToLower (LowerCase exampleWorld) (Ext (str ''https://example.com/b'')) = []"
  "ToLower (LowerCase exampleWorld) (Ext urlGif) = str ''.gif''"
  "ToLower (LowerCase exampleWorld) (Ext (str ''/home/u/cat.jpg'')) = str ''.jpg''"
  "ToLower (LowerCase exampleWorld) (Ext (str ''./scan.tiff'')) = str ''.tiff''"
  "ToLower (LowerCase exampleWorld) (Ext (str ''./diagram.png'')) = str ''.png''"
  "ToLower (LowerCase exampleWorld) (Ext (str ''./missing.png'')) = str ''.png''"
  "ToLower (LowerCase exampleWorld) (Ext picGif) = str ''.gif''"
  by (simp_all add: Ext_def ToLower_def toLowerRune_def str_def exampleWorld_def urlGif_def
      picGif_def dottedI_def)

lemma example_formats:
  "SupportedImageFormats (str ''.png'') = Some ''image/png''"
  "SupportedImageFormats (str ''.jpg'') = Some ''image/jpeg''"
  "SupportedImageFormats (str ''.gif'') = Some ''image/gif''"
  "SupportedImageFormats (str ''.tiff'') = None"
  "SupportedImageFormats [] = None"
  by (simp_all add: SupportedImageFormats_def str_def)


lemmas example_defs = LoadImage_def isURL_def HasPrefix_def str_def exampleWorld_def
  loadImageFromFile_def loadImageFromURL_def Ext_def ToLower_def toLowerRune_def
  SupportedImageFormats_def urlGif_def picGif_def dottedI_def

lemma example_remote:
  "LoadImage exampleWorld (str ''http://example.com/a.png'') =
     Inr \<lparr>Path = str ''http://example.com/a.png'', MimeType = ''image/png'', Data = ''PNG-BYTES''\<rparr>"
  "LoadImage exampleWorld (str ''https://example.com/b'') = Inl (StatusError 203)"
  "LoadImage exampleWorld urlGif =
     Inr \<lparr>Path = urlGif, MimeType = ''image/gif'', Data = ''GIF-BYTES''\<rparr>"
  by (simp_all add: example_defs)

lemma example_local:
  "LoadImage exampleWorld (str ''~/cat.jpg'') =
     Inr \<lparr>Path = str ''/home/u/cat.jpg'', MimeType = ''image/jpeg'', Data = ''JPG-BYTES''\<rparr>"
  "LoadImage exampleWorld (str ''./diagram.png'') =
     Inr \<lparr>Path = str ''./diagram.png'', MimeType = ''image/png'', Data = ''PNG-BYTES''\<rparr>"
  "LoadImage exampleWorld (str ''./scan.tiff'') = Inl (UnsupportedFormat (str ''.tiff''))"
  "LoadImage exampleWorld (str ''./missing.png'') = Inl ReadFileError"
  "LoadImage exampleWorld picGif =
     Inr \<lparr>Path = picGif, MimeType = ''image/gif'', Data = ''GIF-BYTES''\<rparr>"
  by (simp_all add: example_defs)

lemma example_loaded:
  "loadedImages exampleWorld
      [str ''./diagram.png'', str ''./missing.png'', str ''~/cat.jpg'', picGif] =
     [\<lparr>Path = str ''./diagram.png'', MimeType = ''image/png'', Data = ''PNG-BYTES''\<rparr>,
      \<lparr>Path = str ''/home/u/cat.jpg'', MimeType = ''image/jpeg'', Data = ''JPG-BYTES''\<rparr>,
      \<lparr>Path = picGif, MimeType = ''image/gif'', Data = ''GIF-BYTES''\<rparr>]"
  "loadedImages exampleWorld [str ''./scan.tiff''] = []"
  by (simp_all add: loadedImages_def example_local)


theorem C6_message_list_witness:
  "generate exampleWorld
      (\<lambda>opts. \<lparr>handlerCalls = [],
          returned =
            (if Messages opts =
                  [NewUserTextMessage ''hi'', NewModelTextMessage ''hello'',
                   NewUserTextMessage ''hi'',
                   NewUserMessage [TextPart ''compare'',
                     MediaPart ''image/png'' ''data:image/png;base64,base64(PNG-BYTES)'',
                     MediaPart ''image/jpeg'' ''data:image/jpeg;base64,base64(JPG-BYTES)'',
                     MediaPart ''image/gif'' ''data:image/gif;base64,base64(GIF-BYTES)'']]
             then Inr ''same list'' else Inl (BackendError ''other list'')),
          returnTime = 7000000\<rparr>)
      0
      \<lparr>UserInput = ''compare'', Model = ''llava'', SystemPrompt = ''be brief'',
        History = [NewUserTextMessage ''hi'', NewModelTextMessage ''hello'',
                   NewUserTextMessage ''hi''],
        ImagePaths = [str ''./diagram.png'', str ''./missing.png'', str ''~/cat.jpg'', picGif]\<rparr>
      None =
    (\<lparr>Output = ''same list'', DurationMs = 7, TTFCMs = 0, Chunks = 0, Error = None,
      ImagesLoaded = 3\<rparr>, None)"
proof -
  let ?expected = "[NewUserTextMessage ''hi'', NewModelTextMessage ''hello'',
                   NewUserTextMessage ''hi'',
                   NewUserMessage [TextPart ''compare'',
                     MediaPart ''image/png'' ''data:image/png;base64,base64(PNG-BYTES)'',
                     MediaPart ''image/jpeg'' ''data:image/jpeg;base64,base64(JPG-BYTES)'',
                     MediaPart ''image/gif'' ''data:image/gif;base64,base64(GIF-BYTES)'']]"
  let ?backend = "\<lambda>opts. \<lparr>handlerCalls = [],
          returned = (if Messages opts = ?expected
             then Inr ''same list'' else Inl (BackendError ''other list'')),
          returnTime = 7000000\<rparr>"
  let ?req = "\<lparr>UserInput = ''compare'', Model = ''llava'', SystemPrompt = ''be brief'',
        History = [NewUserTextMessage ''hi'', NewModelTextMessage ''hello'',
                   NewUserTextMessage ''hi''],
        ImagePaths = [str ''./diagram.png'', str ''./missing.png'', str ''~/cat.jpg'', picGif]\<rparr>"
  let ?res = "generate exampleWorld ?backend 0 ?req None"
  have enc: "EncodeToString exampleWorld = (\<lambda>data. ''base64('' @ data @ '')'')"
    by (simp add: exampleWorld_def)
  note T = C6_message_list[of exampleWorld ?req None ?backend 0]
  have sent: "snd ?res = None \<and> Error (fst ?res) = None \<and> Output (fst ?res) = ''same list''"
    using T by (simp add: Let_def example_loaded ToMediaPart_def ToDataURI_def enc)
  have rest: "DurationMs (fst ?res) = 7 \<and> TTFCMs (fst ?res) = 0 \<and> Chunks (fst ?res) = 0 \<and>
      ImagesLoaded (fst ?res) = 3"
    by (simp add: generate_def Let_def buildCurrentMessage_snd example_loaded Milliseconds_def
        split: sum.splits)
  obtain r e where re: "?res = (r, e)" by (cases ?res)
  have "r = \<lparr>Output = ''same list'', DurationMs = 7, TTFCMs = 0, Chunks = 0, Error = None,
      ImagesLoaded = 3\<rparr>"
    using sent rest unfolding re by (cases r) simp
  moreover have "e = None" using sent unfolding re by simp
  ultimately show ?thesis unfolding re by simp
qed

theorem C7_remote_image_witness:
  "isURL (str ''http://example.com/a.png'') \<and>
   isOK (LoadImage exampleWorld (str ''http://example.com/a.png'')) \<and>
   (\<exists>resp. httpGet exampleWorld (str ''http://example.com/a.png'') = Some resp \<and>
      StatusCode resp = 200 \<and> ContentType resp = []) \<and>
   (\<exists>img. LoadImage exampleWorld (str ''http://example.com/a.png'') = Inr img \<and>
      MimeType img = ''image/png'' \<and> Data img = ''PNG-BYTES'') \<and>
   isURL urlGif \<and>
   (\<exists>img. LoadImage exampleWorld urlGif = Inr img \<and> MimeType img = ''image/gif'')"
proof -
  have u: "isURL (str ''http://example.com/a.png'')"
    by (simp add: isURL_def HasPrefix_def str_def)
  have g: "httpGet exampleWorld (str ''http://example.com/a.png'') =
      Some \<lparr>StatusCode = 200, ContentType = [], Body = Some ''PNG-BYTES''\<rparr>"
    by (simp add: exampleWorld_def str_def)
  note T = C7_remote_image[OF u, of exampleWorld]
  have ok: "isOK (LoadImage exampleWorld (str ''http://example.com/a.png''))"
    using T[THEN conjunct1] by (simp add: g)
  then obtain img where img: "LoadImage exampleWorld (str ''http://example.com/a.png'') = Inr img"
    by (cases "LoadImage exampleWorld (str ''http://example.com/a.png'')") simp_all
  have m: "MimeType img = ''image/png'' \<and> Data img = ''PNG-BYTES''"
    using T[THEN conjunct2, rule_format, OF img] by (simp add: g example_ext example_formats)
  have u2: "isURL urlGif"
    by (simp add: isURL_def HasPrefix_def str_def urlGif_def)
  have g2: "httpGet exampleWorld urlGif =
      Some \<lparr>StatusCode = 200, ContentType = [], Body = Some ''GIF-BYTES''\<rparr>"
    by (simp add: exampleWorld_def str_def urlGif_def dottedI_def)
  note T2 = C7_remote_image[OF u2, of exampleWorld]
  have "isOK (LoadImage exampleWorld urlGif)"
    using T2[THEN conjunct1] by (simp add: g2)
  then obtain img2 where img2: "LoadImage exampleWorld urlGif = Inr img2"
    by (cases "LoadImage exampleWorld urlGif") simp_all
  have m2: "MimeType img2 = ''image/gif''"
    using T2[THEN conjunct2, rule_format, OF img2] by (simp add: g2 example_ext example_formats)
  show ?thesis using u ok g img m u2 img2 m2 by simp
qed

text \<open>
  C7 as stated fails for a 2xx status other than 200: the GET succeeds with
  status 203, and \<open>LoadImage\<close> returns an error.
\<close>

theorem C7_status_203_counterexample:
  "\<not> (isOK (LoadImage exampleWorld (str ''https://example.com/b'')) \<longleftrightarrow>
        spec_remoteOK exampleWorld (str ''https://example.com/b''))"
  by (simp add: example_remote) (simp add: spec_remoteOK_def exampleWorld_def str_def)












section \<open>Properties of the input parser\<close>

lemma fieldsFrom_tokens:
  "\<forall>c \<in> set cur. \<not> isSpace c \<Longrightarrow> tok \<in> set (fieldsFrom cur s) \<Longrightarrow>
   tok \<noteq> [] \<and> (\<forall>c \<in> set tok. \<not> isSpace c)"
proof (induction s arbitrary: cur)
  case Nil
  then show ?case by (cases "cur = []") simp_all
next
  case (Cons c cs)
  show ?case
  proof (cases "isSpace c")
    case True
    have e: "\<forall>c \<in> set ([]::runes). \<not> isSpace c" by simp
    from Cons.prems(2) True have "tok = cur \<and> cur \<noteq> [] \<or> tok \<in> set (fieldsFrom [] cs)"
      by (cases "cur = []") simp_all
    then show ?thesis
    proof
      assume "tok = cur \<and> cur \<noteq> []"
      then show ?thesis using Cons.prems(1) by simp
    next
      assume "tok \<in> set (fieldsFrom [] cs)"
      then show ?thesis using Cons.IH[OF e] by simp
    qed
  next
    case False
    then have p: "\<forall>d \<in> set (cur @ [c]). \<not> isSpace d" using Cons.prems(1) by simp
    from Cons.prems(2) False have "tok \<in> set (fieldsFrom (cur @ [c]) cs)" by simp
    then show ?thesis using Cons.IH[OF p] by simp
  qed
qed

lemma fieldsFrom_concat:
  "concat (fieldsFrom cur s) = cur @ filter (\<lambda>c. \<not> isSpace c) s"
proof (induction s arbitrary: cur)
  case Nil
  then show ?case by simp
next
  case (Cons c cs)
  show ?case
  proof (cases "isSpace c")
    case True
    then show ?thesis using Cons.IH[of "[]"] by simp
  next
    case False
    then show ?thesis using Cons.IH[of "cur @ [c]"] by simp
  qed
qed

lemma fieldsFrom_dropWhile: "fieldsFrom [] (dropWhile isSpace s) = fieldsFrom [] s"
  by (induction s) simp_all

lemma fieldsFrom_spaces:
  "\<forall>c \<in> set ws. isSpace c \<Longrightarrow> fieldsFrom cur ws = (if cur = [] then [] else [cur])"
proof (induction ws arbitrary: cur)
  case Nil
  then show ?case by simp
next
  case (Cons c cs)
  then have "fieldsFrom [] cs = []" by simp
  then show ?case using Cons.prems by simp
qed

lemma fieldsFrom_append_spaces:
  "\<forall>c \<in> set ws. isSpace c \<Longrightarrow> fieldsFrom cur (s @ ws) = fieldsFrom cur s"
proof (induction s arbitrary: cur)
  case Nil
  then show ?case by (simp add: fieldsFrom_spaces)
next
  case (Cons c cs)
  show ?case
  proof (cases "isSpace c")
    case True
    then show ?thesis using Cons.IH[OF Cons.prems, of "[]"] by simp
  next
    case False
    then show ?thesis using Cons.IH[OF Cons.prems, of "cur @ [c]"] by simp
  qed
qed

lemma rev_dropWhile_rev: "rev (dropWhile P (rev s)) @ rev (takeWhile P (rev s)) = s"
proof -
  have "rev (takeWhile P (rev s) @ dropWhile P (rev s)) = s" by simp
  then show ?thesis by (simp only: rev_append)
qed

lemma Fields_TrimSpace: "Fields (TrimSpace s) = Fields s"
proof -
  let ?t = "dropWhile isSpace s"
  have "fieldsFrom [] (rev (dropWhile isSpace (rev ?t))) =
        fieldsFrom [] (rev (dropWhile isSpace (rev ?t)) @ rev (takeWhile isSpace (rev ?t)))"
    by (rule fieldsFrom_append_spaces[symmetric]) (auto dest: set_takeWhileD)
  also have "\<dots> = fieldsFrom [] ?t" by (simp only: rev_dropWhile_rev)
  also have "\<dots> = fieldsFrom [] s" by (rule fieldsFrom_dropWhile)
  finally show ?thesis by (simp add: Fields_def TrimSpace_def)
qed

lemma fieldsFrom_Nil_iff: "fieldsFrom cur s = [] \<longleftrightarrow> cur = [] \<and> (\<forall>c \<in> set s. isSpace c)"
proof (induction s arbitrary: cur)
  case Nil
  then show ?case by simp
next
  case (Cons c cs)
  show ?case
  proof (cases "isSpace c")
    case True
    then show ?thesis using Cons.IH[of "[]"] by simp
  next
    case False
    then show ?thesis using Cons.IH[of "cur @ [c]"] by simp
  qed
qed

lemma TrimSpace_Nil_iff: "TrimSpace s = [] \<longleftrightarrow> (\<forall>c \<in> set s. isSpace c)"
proof
  assume "TrimSpace s = []"
  then have all: "\<forall>x \<in> set (dropWhile isSpace s). isSpace x"
    by (simp add: TrimSpace_def dropWhile_eq_Nil_conv)
  have "dropWhile isSpace s = []"
  proof (rule ccontr)
    assume ne: "dropWhile isSpace s \<noteq> []"
    then have "\<not> isSpace (hd (dropWhile isSpace s))" by (rule hd_dropWhile)
    moreover have "hd (dropWhile isSpace s) \<in> set (dropWhile isSpace s)"
      using ne by (rule hd_in_set)
    ultimately show False using all by blast
  qed
  then show "\<forall>c \<in> set s. isSpace c" by (rule iffD1[OF dropWhile_eq_Nil_conv])
next
  assume "\<forall>c \<in> set s. isSpace c"
  then have e: "dropWhile isSpace s = []" by (rule iffD2[OF dropWhile_eq_Nil_conv])
  show "TrimSpace s = []" unfolding TrimSpace_def e by simp
qed

lemma TrimSpace_id:
  assumes "s = [] \<or> (\<not> isSpace (hd s) \<and> \<not> isSpace (last s))"
  shows "TrimSpace s = s"
proof (cases s)
  case Nil
  then show ?thesis by (simp add: TrimSpace_def)
next
  case (Cons c cs)
  with assms have h: "\<not> isSpace c" and l: "\<not> isSpace (last s)" by auto
  have 1: "dropWhile isSpace s = s" using h Cons by simp
  obtain a as where r: "rev s = a # as" using Cons by (cases "rev s") auto
  have "hd (rev s) = last s" using Cons by (simp add: hd_rev)
  then have "a = last s" using r by simp
  then have "\<not> isSpace a" using l by simp
  then have 2: "dropWhile isSpace (rev s) = rev s"
    unfolding r by simp
  show ?thesis by (simp add: TrimSpace_def 1 2)
qed

lemma Join_Nil_iff: "\<forall>t \<in> set toks. t \<noteq> [] \<Longrightarrow> Join toks sep = [] \<longleftrightarrow> toks = []"
  by (induction toks sep rule: Join.induct) auto

lemma hd_Join: "toks \<noteq> [] \<Longrightarrow> hd toks \<noteq> [] \<Longrightarrow> hd (Join toks sep) = hd (hd toks)"
  by (induction toks sep rule: Join.induct) auto

lemma last_Join:
  "toks \<noteq> [] \<Longrightarrow> \<forall>t \<in> set toks. t \<noteq> [] \<Longrightarrow> last (Join toks sep) = last (last toks)"
proof (induction toks sep rule: Join.induct)
  case (3 x y zs sep)
  then have "Join (y # zs) sep \<noteq> []" using Join_Nil_iff[of "y # zs" sep] by simp
  then show ?case using 3 by simp
qed auto

lemma TrimSpace_Join:
  assumes "\<forall>tok \<in> set toks. tok \<noteq> [] \<and> (\<forall>c \<in> set tok. \<not> isSpace c)"
  shows "TrimSpace (Join toks (str '' '')) = Join toks (str '' '')"
proof (cases toks)
  case Nil
  then show ?thesis by (simp add: TrimSpace_def)
next
  case (Cons t ts)
  have ne: "\<forall>t \<in> set toks. t \<noteq> []" using assms by blast
  have "hd toks \<in> set toks" "last toks \<in> set toks" using Cons by auto
  then have a: "\<not> isSpace (hd (hd toks))" "\<not> isSpace (last (last toks))"
    using assms by (metis hd_in_set, metis last_in_set)
  have "hd (Join toks (str '' '')) = hd (hd toks)" using Cons ne by (intro hd_Join) auto
  moreover have "last (Join toks (str '' '')) = last (last toks)"
    using Cons ne by (intro last_Join) auto
  ultimately show ?thesis using a by (intro TrimSpace_id) simp
qed

lemma splitTokens_eq:
  "splitTokens w tokens textTokens imagePaths =
     (textTokens @ filter (\<lambda>tok. \<not> isImageFile w tok) tokens,
      imagePaths @ filter (isImageFile w) tokens)"
  by (induction tokens arbitrary: textTokens imagePaths) auto

lemma extractLoop_eq:
  "extractLoop w words paths =
     paths @ filter (\<lambda>word. SupportedImageFormats (ToLower (LowerCase w) (Ext word)) \<noteq> None)
       words"
  by (induction words arbitrary: paths) (auto split: option.splits)

lemma SupportedImageFormats_dom:
  "SupportedImageFormats ext \<noteq> None \<longleftrightarrow> ext \<in> set imageExtensions"
  by (auto simp: SupportedImageFormats_def imageExtensions_def)

lemma isImageFile_iff:
  "isImageFile w tok \<longleftrightarrow>
     (\<exists>info. Stat w (TrimRight tok (str ''.,!?;:'')) = Some info \<and> \<not> IsDir info) \<and>
     spec_isImageRef w tok"
  by (auto simp: isImageFile_def spec_isImageRef_def Let_def split: option.splits)

text \<open>
  C5, as the code has it. \<open>ParseLine\<close> splits the line into its
  white-space-delimited tokens (each token is non-empty and free of white
  space, and the tokens together are the line without its white space); a
  token is an image reference exactly when, after stripping trailing
  punctuation, it names an existing file that is not a directory and its
  lower-cased extension is one of png, jpg, jpeg, webp, gif, bmp; the image
  paths are the image tokens in order; the text is the other tokens joined by
  single spaces, or the default prompt when that is empty and there is an
  image. \<open>ExtractImagePaths\<close>, which the main loop uses, selects the
  tokens whose lower-cased extension is supported, without stripping
  punctuation and without looking at the file system.
\<close>

theorem C5_parse_line:
  "ParsedInput.ImagePaths (ParseLine w line) = filter (isImageFile w) (Fields line) \<and>
   Text (ParseLine w line) =
     (let cleaned = Join (filter (\<lambda>tok. \<not> isImageFile w tok) (Fields line)) (str '' '')
      in if cleaned = [] \<and> filter (isImageFile w) (Fields line) \<noteq> []
         then str ''Describe this image in detail.'' else cleaned) \<and>
   (\<forall>tok \<in> set (Fields line). isImageFile w tok \<longleftrightarrow>
      (\<exists>info. Stat w (TrimRight tok (str ''.,!?;:'')) = Some info \<and> \<not> IsDir info) \<and>
      spec_isImageRef w tok) \<and>
   (\<forall>tok \<in> set (Fields line). tok \<noteq> [] \<and> (\<forall>c \<in> set tok. \<not> isSpace c)) \<and>
   concat (Fields line) = filter (\<lambda>c. \<not> isSpace c) line \<and>
   ExtractImagePaths w line =
     filter (\<lambda>word. ToLower (LowerCase w) (Ext word) \<in> set imageExtensions) (Fields line)"
proof -
  let ?imgs = "filter (isImageFile w) (Fields line)"
  let ?txts = "filter (\<lambda>tok. \<not> isImageFile w tok) (Fields line)"
  have toks: "\<forall>tok \<in> set (Fields line). tok \<noteq> [] \<and> (\<forall>c \<in> set tok. \<not> isSpace c)"
    using fieldsFrom_tokens[of "[]" _ line] by (simp add: Fields_def)
  then have "\<forall>tok \<in> set ?txts. tok \<noteq> [] \<and> (\<forall>c \<in> set tok. \<not> isSpace c)" by auto
  then have trim: "TrimSpace (Join ?txts (str '' '')) = Join ?txts (str '' '')"
    by (rule TrimSpace_Join)
  have cat: "concat (Fields line) = filter (\<lambda>c. \<not> isSpace c) line"
    by (simp add: Fields_def fieldsFrom_concat)
  have ext: "ExtractImagePaths w line =
      filter (\<lambda>word. ToLower (LowerCase w) (Ext word) \<in> set imageExtensions) (Fields line)"
    unfolding ExtractImagePaths_def extractLoop_eq SupportedImageFormats_dom by simp
  have parse: "ParsedInput.ImagePaths (ParseLine w line) = ?imgs \<and>
      Text (ParseLine w line) =
        (let cleaned = Join ?txts (str '' '')
         in if cleaned = [] \<and> ?imgs \<noteq> [] then str ''Describe this image in detail.''
            else cleaned)"
  proof (cases "TrimSpace line = []")
    case True
    then have "Fields line = []"
      by (simp add: TrimSpace_Nil_iff Fields_def fieldsFrom_Nil_iff)
    then show ?thesis using True by (simp add: ParseLine_def)
  next
    case False
    then show ?thesis
      by (simp add: ParseLine_def Let_def Fields_TrimSpace splitTokens_eq trim)
  qed
  have cls: "\<forall>tok \<in> set (Fields line). isImageFile w tok \<longleftrightarrow>
      (\<exists>info. Stat w (TrimRight tok (str ''.,!?;:'')) = Some info \<and> \<not> IsDir info) \<and>
      spec_isImageRef w tok"
    using isImageFile_iff[of w] by blast
  show ?thesis using parse toks cat ext cls by blast
qed

lemma example_fields:
  "Fields (str ''describe ./diagram.png please'') =
     [str ''describe'', str ''./diagram.png'', str ''please'']"
  "Fields (str ''./only.jpg'') = [str ''./only.jpg'']"
  "Fields spacedLine =
     [str ''look'', picGif, str ''now'']"
  by (simp_all add: Fields_def isSpace_def str_def picGif_def dottedI_def spacedLine_def)

lemma example_isImageFile:
  "isImageFile exampleWorld (str ''./diagram.png'')"
  "isImageFile exampleWorld (str ''./only.jpg'')"
  "isImageFile exampleWorld picGif"
  "\<not> isImageFile exampleWorld (str ''describe'')"
  "\<not> isImageFile exampleWorld (str ''please'')"
  "\<not> isImageFile exampleWorld (str ''look'')"
  "\<not> isImageFile exampleWorld (str ''now'')"
  by (simp_all add: isImageFile_def TrimRight_def exampleWorld_def Ext_def ToLower_def
      toLowerRune_def imageExtensions_def str_def picGif_def dottedI_def)

theorem C5_parse_line_witness:
  "ParsedInput.ImagePaths (ParseLine exampleWorld (str ''describe ./diagram.png please'')) =
     [str ''./diagram.png''] \<and>
   Text (ParseLine exampleWorld (str ''describe ./diagram.png please'')) =
     str ''describe please'' \<and>
   ParsedInput.ImagePaths (ParseLine exampleWorld (str ''./only.jpg'')) = [str ''./only.jpg''] \<and>
   Text (ParseLine exampleWorld (str ''./only.jpg'')) = str ''Describe this image in detail.'' \<and>
   ParsedInput.ImagePaths
     (ParseLine exampleWorld spacedLine) =
     [picGif] \<and>
   Text (ParseLine exampleWorld spacedLine) =
     str ''look now''"
proof -
  note A = C5_parse_line[of exampleWorld "str ''describe ./diagram.png please''"]
  note B = C5_parse_line[of exampleWorld "str ''./only.jpg''"]
  note C = C5_parse_line[of exampleWorld spacedLine]
  have i1: "ParsedInput.ImagePaths (ParseLine exampleWorld (str ''describe ./diagram.png please'')) =
      [str ''./diagram.png'']"
    using A[THEN conjunct1] by (simp add: example_fields example_isImageFile)
  have t1: "Text (ParseLine exampleWorld (str ''describe ./diagram.png please'')) =
      str ''describe please''"
    using A[THEN conjunct2, THEN conjunct1]
    by (simp add: example_fields example_isImageFile) (simp add: str_def)
  have i2: "ParsedInput.ImagePaths (ParseLine exampleWorld (str ''./only.jpg'')) =
      [str ''./only.jpg'']"
    using B[THEN conjunct1] by (simp add: example_fields example_isImageFile)
  have t2: "Text (ParseLine exampleWorld (str ''./only.jpg'')) =
      str ''Describe this image in detail.''"
    using B[THEN conjunct2, THEN conjunct1] by (simp add: example_fields example_isImageFile)
  have i3: "ParsedInput.ImagePaths
      (ParseLine exampleWorld spacedLine) = [picGif]"
    using C[THEN conjunct1] by (simp add: example_fields example_isImageFile)
  have t3: "Text (ParseLine exampleWorld spacedLine) =
      str ''look now''"
    using C[THEN conjunct2, THEN conjunct1]
    by (simp add: example_fields example_isImageFile) (simp add: str_def)
  show ?thesis using i1 t1 i2 t2 i3 t3 by blast
qed

text \<open>
  C5 as stated fails where the file does not exist: \<open>./diagram.png\<close> has
  a supported extension, yet with no such file \<open>isImageFile\<close> rejects it
  and \<open>ParseLine\<close> reports no image path.
\<close>

theorem C5_missing_file_counterexample:
  "\<not> (isImageFile (exampleWorld\<lparr>Stat := (\<lambda>p. None)\<rparr>) (str ''./diagram.png'') \<longleftrightarrow>
        spec_isImageRef (exampleWorld\<lparr>Stat := (\<lambda>p. None)\<rparr>) (str ''./diagram.png'')) \<and>
   ParsedInput.ImagePaths
     (ParseLine (exampleWorld\<lparr>Stat := (\<lambda>p. None)\<rparr>) (str ''describe ./diagram.png please'')) \<noteq>
     [str ''./diagram.png'']"
proof -
  have n: "\<And>tok. \<not> isImageFile (exampleWorld\<lparr>Stat := (\<lambda>p. None)\<rparr>) tok"
    by (simp add: isImageFile_def)
  have s: "spec_isImageRef (exampleWorld\<lparr>Stat := (\<lambda>p. None)\<rparr>) (str ''./diagram.png'')"
    by (simp add: spec_isImageRef_def TrimRight_def Ext_def ToLower_def toLowerRune_def
        imageExtensions_def str_def exampleWorld_def)
  have t: "TrimSpace (str ''describe ./diagram.png please'') = str ''describe ./diagram.png please''"
    by (simp add: TrimSpace_def isSpace_def str_def)
  have "ParsedInput.ImagePaths
     (ParseLine (exampleWorld\<lparr>Stat := (\<lambda>p. None)\<rparr>) (str ''describe ./diagram.png please'')) = []"
    by (simp add: ParseLine_def t example_fields n Let_def)
  then show ?thesis using n s by simp
qed

section \<open>Properties of the cancellation handle\<close>





















end
